theory Spec2Isabelle
  imports Complex_Main "HOL-Library.AList"
begin

section \<open>Python values, exceptions and string helpers\<close>

text \<open>
  The server is \<^verbatim>\<open>singleroom_server.py\<close>: a \<^verbatim>\<open>SessionController\<close> that keeps the
  registry of clients and the presentation flags, and one \<^verbatim>\<open>ClientWSConnection\<close> per
  websocket. Every exception the Python can raise is a value of \<open>py_error\<close>; a method
  returns its result together with the state it leaves behind, so that the effects that
  happened before a \<^verbatim>\<open>raise\<close> stay visible.
\<close>

datatype py_error = KeyError | IndexError | AttributeError | ValueError | StreamClosedError

datatype 'a result = Return 'a | Raise py_error

text \<open>
  What \<^verbatim>\<open>json.loads\<close> can return and \<^verbatim>\<open>json.dumps\<close> can take. The two functions
  themselves belong to the standard library: the handlers below take them as the
  parameters \<open>loads\<close> (\<open>None\<close> when the text is rejected with \<^verbatim>\<open>ValueError\<close>) and
  \<open>dumps\<close>.
\<close>

datatype json =
    JNull
  | JBool bool
  | JInt int
  | JFloat real
  | JStr string
  | JArr "json list"
  | JObj "(string \<times> json) list"

text \<open>Python's truth value of such an object, as \<^verbatim>\<open>if self._SC._follow_instructor:\<close> reads it.\<close>

fun truthy :: "json \<Rightarrow> bool" where
  "truthy JNull = False"
| "truthy (JBool b) = b"
| "truthy (JInt i) = (i \<noteq> 0)"
| "truthy (JFloat r) = (r \<noteq> 0)"
| "truthy (JStr s) = (s \<noteq> [])"
| "truthy (JArr xs) = (xs \<noteq> [])"
| "truthy (JObj kvs) = (kvs \<noteq> [])"

text \<open>\<^verbatim>\<open>message.split(sep)\<close> for a one-character separator: never the empty list.\<close>

fun py_split :: "char \<Rightarrow> string \<Rightarrow> string list" where
  "py_split sep [] = [[]]"
| "py_split sep (c # cs) =
     (if c = sep then [] # py_split sep cs
      else (case py_split sep cs of
              [] \<Rightarrow> [[c]]
            | p # ps \<Rightarrow> (c # p) # ps))"

text \<open>\<^verbatim>\<open>sep.join(parts)\<close>.\<close>

fun py_join :: "string \<Rightarrow> string list \<Rightarrow> string" where
  "py_join sep [] = []"
| "py_join sep [p] = p"
| "py_join sep (p # q # ps) = p @ sep @ py_join sep (q # ps)"

text \<open>\<^verbatim>\<open>str(i)\<close> for a non-negative integer: its decimal digits.\<close>

definition digit_char :: "nat \<Rightarrow> char" where
  "digit_char d = ''0123456789'' ! d"

fun str :: "nat \<Rightarrow> string" where
  "str n = (if n < 10 then [digit_char n] else str (n div 10) @ [digit_char (n mod 10)])"

text \<open>
  The character classes of the two regular expressions of \<^verbatim>\<open>get_safe_nick\<close>, as
  Python's \<^verbatim>\<open>re\<close> reads them without the \<^verbatim>\<open>UNICODE\<close> flag: \<^verbatim>\<open>\w\<close> is a letter, a digit
  or the underscore, \<^verbatim>\<open>\s\<close> is one of space, tab, line feed, carriage return, form feed
  and vertical tab.
\<close>

definition is_word :: "char \<Rightarrow> bool" where
  "is_word c \<longleftrightarrow>
     c \<in> set ''abcdefghijklmnopqrstuvwxyzABCDEFGHIJKLMNOPQRSTUVWXYZ0123456789_''"

definition is_space :: "char \<Rightarrow> bool" where
  "is_space c \<longleftrightarrow>
     c \<in> set [CHR '' '', CHR 0x09, CHR 0x0A, CHR 0x0D, CHR 0x0C, CHR 0x0B]"

section \<open>The session state\<close>

text \<open>
  Connections are objects shared between the registry and the websocket layer, so the
  state keeps them in a store indexed by their identity. Of a connection the model keeps
  the two attributes \<^verbatim>\<open>initialize\<close> sets, and of its transport whether it is closed: a
  \<^verbatim>\<open>write_message\<close> on a closed transport raises, and every successful one is appended to
  the trace \<open>sent\<close> with the connection it went to.
\<close>

record client_obj =
  nick :: string
  connection :: nat
  instructor :: bool

record conn =
  c_nick :: "string option"
  is_instructor :: bool
  is_closed :: bool

text \<open>
  The fields of \<^verbatim>\<open>SessionController\<close>: the dictionary \<open>clients\<close> as an association list
  in insertion order, which is the order a Python 3 dictionary is iterated in (an older
  Python iterates in an order of its own; then ``before'' and ``after'' in the registry
  mean that order). The set \<open>nicks\<close> is a duplicate-free list: Python leaves the order in
  which a set is iterated open, the model iterates in insertion order, and only the text
  of the roster depends on it.
\<close>

record state =
  clients :: "(string \<times> client_obj) list"
  nicks :: "string list"
  sc_instructor :: "client_obj option"
  presentation_started :: bool
  follow_instructor :: json
  lock_student_nav :: json
  latest_instructor_state :: string
  conns :: "nat \<Rightarrow> conn"
  sent :: "(nat \<times> string) list"

text \<open>\<^verbatim>\<open>ClientWSConnection.initialize\<close>, and \<^verbatim>\<open>SessionController.__init__\<close> over a store of
  freshly initialised connections.\<close>

definition new_conn :: conn where
  "new_conn = \<lparr>c_nick = None, is_instructor = False, is_closed = False\<rparr>"

definition initialize :: "state \<Rightarrow> nat \<Rightarrow> state" where
  "initialize st c = st\<lparr>conns := (conns st)(c := new_conn)\<rparr>"

definition init_state :: state where
  "init_state =
     \<lparr>clients = [], nicks = [], sc_instructor = None, presentation_started = False,
      follow_instructor = JBool True, lock_student_nav = JBool True,
      latest_instructor_state = [], conns = (\<lambda>_. new_conn), sent = []\<rparr>"

section \<open>The transport\<close>

text \<open>
  Modelled from the spec: \<^verbatim>\<open>write_message\<close> is the websocket library's, not the
  repository's. The spec's connection handle has \<^verbatim>\<open>send(text)\<close> and \<^verbatim>\<open>close()\<close>, and a
  write to a connection that is already closed fails; the failure is the exception
  whose name the server imports, \<^verbatim>\<open>StreamClosedError\<close>.
\<close>

definition write_message :: "state \<Rightarrow> nat \<Rightarrow> string \<Rightarrow> unit result \<times> state" where
  "write_message st c msg =
     (if is_closed (conns st c) then (Raise StreamClosedError, st)
      else (Return (), st\<lparr>sent := sent st @ [(c, msg)]\<rparr>))"

text \<open>
  Modelled from the spec: \<^verbatim>\<open>connection.close()\<close>, the library's as well; it closes the
  transport and never raises.
\<close>

definition close_conn :: "state \<Rightarrow> nat \<Rightarrow> state" where
  "close_conn st c = st\<lparr>conns := (conns st)(c := (conns st c)\<lparr>is_closed := True\<rparr>)\<rparr>"

text \<open>\<^verbatim>\<open>ClientWSConnection.set_instructor\<close>.\<close>

definition set_instructor :: "state \<Rightarrow> nat \<Rightarrow> bool \<Rightarrow> state" where
  "set_instructor st c b = st\<lparr>conns := (conns st)(c := (conns st c)\<lparr>is_instructor := b\<rparr>)\<rparr>"

section \<open>Nickname allocation\<close>

text \<open>
  The \<^verbatim>\<open>while\<close> loop of \<^verbatim>\<open>get_safe_nick\<close>: the candidate is rebound to itself followed
  by the counter, so it grows at every round. It ends because a longer candidate leaves
  fewer taken nicks that are at least as long.
\<close>

function safe_nick_loop :: "string list \<Rightarrow> string \<Rightarrow> nat \<Rightarrow> string" where
  "safe_nick_loop taken safe_nick i =
     (if safe_nick \<in> set taken then safe_nick_loop taken (safe_nick @ str i) (i + 1)
      else safe_nick)"
  by pat_completeness auto

termination safe_nick_loop
proof (relation "measure (\<lambda>(taken, s, i). length (filter (\<lambda>n. length s \<le> length n) taken))")
  show "wf (measure (\<lambda>(taken, s, i). length (filter (\<lambda>n. length s \<le> length n) taken)))"
    by simp
next
  fix taken :: "string list" and safe_nick :: string and i :: nat
  assume taken: "safe_nick \<in> set taken"
  define next_nick where "next_nick = safe_nick @ str i"
  let ?P = "\<lambda>n. length safe_nick \<le> length n"
  let ?Q = "\<lambda>n. length next_nick \<le> length n"
  have "str i \<noteq> []"
    by (subst str.simps) (simp del: str.simps)
  then have longer: "length safe_nick < length next_nick"
    unfolding next_nick_def by (cases "str i") (simp_all del: str.simps)
  then have "filter ?Q taken = filter ?Q (filter ?P taken)"
    by (auto intro!: filter_cong)
  moreover have "safe_nick \<in> set (filter ?P taken)" and "\<not> ?Q safe_nick"
    using taken longer by auto
  ultimately have "length (filter ?Q taken) < length (filter ?P taken)"
    by (metis length_filter_less)
  then show "((taken, safe_nick @ str i, i + 1), (taken, safe_nick, i))
      \<in> measure (\<lambda>(taken, s, i). length (filter (\<lambda>n. length s \<le> length n) taken))"
    unfolding next_nick_def by (simp only: in_measure prod.case)
qed

declare safe_nick_loop.simps [simp del] str.simps [simp del]

definition get_safe_nick :: "state \<Rightarrow> string \<Rightarrow> string" where
  "get_safe_nick st initial_nick =
     (let safe_nick = filter (\<lambda>c. is_word c \<or> is_space c) initial_nick;
          safe_nick = filter (\<lambda>c. \<not> is_space c) safe_nick
      in safe_nick_loop (nicks st) safe_nick 1)"

section \<open>Containers\<close>

text \<open>
  \<^verbatim>\<open>xs[i]\<close> on a list (\<open>None\<close> stands for \<^verbatim>\<open>IndexError\<close>), \<^verbatim>\<open>s.add(x)\<close> on a set.
  The dictionary operations are those of \<open>AList\<close>: \<open>map_of\<close> looks a key up (\<open>None\<close>
  stands for \<^verbatim>\<open>KeyError\<close>), \<open>AList.update\<close> replaces the value of a key in place or
  appends a new entry, \<open>AList.delete\<close> removes a key.
\<close>

definition py_index :: "'a list \<Rightarrow> nat \<Rightarrow> 'a option" where
  "py_index xs i = (if i < length xs then Some (xs ! i) else None)"

definition set_add :: "'a \<Rightarrow> 'a list \<Rightarrow> 'a list" where
  "set_add x xs = (if x \<in> set xs then xs else xs @ [x])"

section \<open>SessionController\<close>

text \<open>
  The loop \<^verbatim>\<open>for nick in self.clients: self.clients[nick]['connection'].write_message(msg)\<close>:
  it walks the registry in order and stops at the first write that raises. (The loop
  looks every key up again; in a dictionary that is the entry the key came from.)
\<close>

fun write_all :: "state \<Rightarrow> (string \<times> client_obj) list \<Rightarrow> string \<Rightarrow> unit result \<times> state" where
  "write_all st [] msg = (Return (), st)"
| "write_all st ((n, cl) # rest) msg =
     (case write_message st (connection cl) msg of
        (Raise e, st') \<Rightarrow> (Raise e, st')
      | (Return _, st') \<Rightarrow> write_all st' rest msg)"

text \<open>The same loop under \<^verbatim>\<open>if not conn._is_instructor:\<close>.\<close>

fun write_participants ::
  "state \<Rightarrow> (string \<times> client_obj) list \<Rightarrow> string \<Rightarrow> unit result \<times> state" where
  "write_participants st [] msg = (Return (), st)"
| "write_participants st ((n, cl) # rest) msg =
     (if \<not> is_instructor (conns st (connection cl)) then
        (case write_message st (connection cl) msg of
           (Raise e, st') \<Rightarrow> (Raise e, st')
         | (Return _, st') \<Rightarrow> write_participants st' rest msg)
      else write_participants st rest msg)"

definition nicklist_msg :: "state \<Rightarrow> string" where
  "nicklist_msg st =
     (let payload = foldl (\<lambda>payload n. payload @ ''<li>'' @ n @ ''</li>'') ''<ul>'' (nicks st);
          payload = payload @ ''</ul>''
      in ''nicklist|'' @ payload)"

definition broadcast_nicklist :: "state \<Rightarrow> unit result \<times> state" where
  "broadcast_nicklist st = write_all st (clients st) (nicklist_msg st)"

definition add_client :: "state \<Rightarrow> string \<Rightarrow> nat \<Rightarrow> string result \<times> state" where
  "add_client st initial_nick c =
     (let final_nick = get_safe_nick st initial_nick;
          first = (length (clients st) = 0);
          client = \<lparr>nick = final_nick, connection = c, instructor = first\<rparr>;
          st = (if first then set_instructor (st\<lparr>sc_instructor := Some client\<rparr>) c True
                else st);
          st = st\<lparr>clients := AList.update final_nick client (clients st)\<rparr>;
          st = st\<lparr>nicks := set_add final_nick (nicks st)\<rparr>
      in case broadcast_nicklist st of
           (Raise e, st') \<Rightarrow> (Raise e, st')
         | (Return _, st') \<Rightarrow> (Return final_nick, st'))"

definition remove_client :: "state \<Rightarrow> string \<Rightarrow> unit result \<times> state" where
  "remove_client st n =
     (case map_of (clients st) n of
        None \<Rightarrow> (Raise KeyError, st)
      | Some cl \<Rightarrow>
          (let st = close_conn st (connection cl);
               st = st\<lparr>clients := AList.delete n (clients st)\<rparr>
           in if n \<in> set (nicks st)
              then broadcast_nicklist (st\<lparr>nicks := removeAll n (nicks st)\<rparr>)
              else (Raise KeyError, st)))"

definition set_instructor_state :: "state \<Rightarrow> string \<Rightarrow> state" where
  "set_instructor_state st state_txt = st\<lparr>latest_instructor_state := state_txt\<rparr>"

definition get_instructor_state :: "state \<Rightarrow> string" where
  "get_instructor_state st = latest_instructor_state st"

definition generate_start_presentation_msg :: "(json \<Rightarrow> string) \<Rightarrow> state \<Rightarrow> string" where
  "generate_start_presentation_msg dumps st =
     (let params_obj = JObj [(''source'', JStr ''/static/presentations/pres1/index.html''),
                             (''follow_instructor'', follow_instructor st),
                             (''lock_student_nav'', lock_student_nav st)];
          msg_parts = [''load_presentation'', dumps params_obj]
      in py_join ''|'' msg_parts)"

definition send_start_presentation ::
  "(json \<Rightarrow> string) \<Rightarrow> state \<Rightarrow> nat \<Rightarrow> unit result \<times> state" where
  "send_start_presentation dumps st c =
     write_message st c (generate_start_presentation_msg dumps st)"

definition broadcast_start_presentation :: "(json \<Rightarrow> string) \<Rightarrow> state \<Rightarrow> unit result \<times> state" where
  "broadcast_start_presentation dumps st =
     (case write_all st (clients st) (generate_start_presentation_msg dumps st) of
        (Raise e, st') \<Rightarrow> (Raise e, st')
      | (Return _, st') \<Rightarrow> (Return (), st'\<lparr>presentation_started := True\<rparr>))"

definition broadcast_finish_presentation :: "state \<Rightarrow> unit result \<times> state" where
  "broadcast_finish_presentation st =
     (let msg_parts = [''finish_presentation''];
          msg = py_join ''|'' msg_parts
      in case write_all st (clients st) msg of
           (Raise e, st') \<Rightarrow> (Raise e, st')
         | (Return _, st') \<Rightarrow>
             (Return (), st'\<lparr>presentation_started := False,
                              follow_instructor := JBool True,
                              lock_student_nav := JBool True\<rparr>))"

definition broadcast_reveal_state :: "state \<Rightarrow> string \<Rightarrow> unit result \<times> state" where
  "broadcast_reveal_state st state_txt =
     write_participants st (clients st) (''instructor_state|'' @ state_txt)"

definition broadcast_lock_student_nav ::
  "(json \<Rightarrow> string) \<Rightarrow> state \<Rightarrow> json \<Rightarrow> unit result \<times> state" where
  "broadcast_lock_student_nav dumps st lockstate =
     write_participants st (clients st) (''lock_student_nav|'' @ dumps lockstate)"

section \<open>ClientWSConnection\<close>

text \<open>The request handlers of the connection \<open>c\<close>; \<open>is_instructor (conns st c)\<close> is its
  \<^verbatim>\<open>self._is_instructor\<close>.\<close>

definition handle_start_presentation ::
  "(json \<Rightarrow> string) \<Rightarrow> state \<Rightarrow> nat \<Rightarrow> string list \<Rightarrow> unit result \<times> state" where
  "handle_start_presentation dumps st c msg_parts =
     (if \<not> is_instructor (conns st c) then (Return (), st)
      else broadcast_start_presentation dumps st)"

definition handle_slide_changed :: "state \<Rightarrow> nat \<Rightarrow> string list \<Rightarrow> unit result \<times> state" where
  "handle_slide_changed st c msg_parts =
     (case py_index msg_parts 1 of
        None \<Rightarrow> (Raise IndexError, st)
      | Some state_txt \<Rightarrow>
          (if is_instructor (conns st c) then
             (let st = set_instructor_state st state_txt
              in if truthy (follow_instructor st) then broadcast_reveal_state st state_txt
                 else (Return (), st))
           else (Return (), st)))"

definition handle_lock_follow_instructor ::
  "(string \<Rightarrow> json option) \<Rightarrow> state \<Rightarrow> nat \<Rightarrow> string list \<Rightarrow> unit result \<times> state" where
  "handle_lock_follow_instructor loads st c msg_parts =
     (if \<not> is_instructor (conns st c) then (Return (), st)
      else (case py_index msg_parts 1 of
              None \<Rightarrow> (Raise IndexError, st)
            | Some txt \<Rightarrow>
                (case loads txt of
                   None \<Rightarrow> (Raise ValueError, st)
                 | Some lock \<Rightarrow> (Return (), st\<lparr>follow_instructor := lock\<rparr>))))"

definition handle_lock_student_nav ::
  "(string \<Rightarrow> json option) \<Rightarrow> (json \<Rightarrow> string) \<Rightarrow> state \<Rightarrow> nat \<Rightarrow> string list
     \<Rightarrow> unit result \<times> state" where
  "handle_lock_student_nav loads dumps st c msg_parts =
     (if \<not> is_instructor (conns st c) then (Return (), st)
      else (case py_index msg_parts 1 of
              None \<Rightarrow> (Raise IndexError, st)
            | Some txt \<Rightarrow>
                (case loads txt of
                   None \<Rightarrow> (Raise ValueError, st)
                 | Some lock \<Rightarrow>
                     broadcast_lock_student_nav dumps (st\<lparr>lock_student_nav := lock\<rparr>) lock)))"

definition handle_sync_to_instructor :: "state \<Rightarrow> nat \<Rightarrow> string list \<Rightarrow> unit result \<times> state" where
  "handle_sync_to_instructor st c msg_parts =
     (let state_txt = get_instructor_state st
      in if is_instructor (conns st c) then broadcast_reveal_state st state_txt
         else write_message st c (''instructor_state|'' @ state_txt))"

definition handle_finish_presentation :: "state \<Rightarrow> nat \<Rightarrow> string list \<Rightarrow> unit result \<times> state" where
  "handle_finish_presentation st c msg_parts =
     (if \<not> is_instructor (conns st c) then (Return (), st)
      else broadcast_finish_presentation st)"

text \<open>
  \<^verbatim>\<open>getattr(self, func_name)\<close>: the attributes of a connection whose name starts with
  \<^verbatim>\<open>handle_\<close> are the six handlers; for any other name \<^verbatim>\<open>getattr\<close>, called without a
  default, raises \<^verbatim>\<open>AttributeError\<close> (\<open>None\<close> here).
\<close>

definition getattr ::
  "(string \<Rightarrow> json option) \<Rightarrow> (json \<Rightarrow> string) \<Rightarrow> string
     \<Rightarrow> (state \<Rightarrow> nat \<Rightarrow> string list \<Rightarrow> unit result \<times> state) option" where
  "getattr loads dumps func_name =
     (if func_name = ''handle_start_presentation'' then Some (handle_start_presentation dumps)
      else if func_name = ''handle_slide_changed'' then Some handle_slide_changed
      else if func_name = ''handle_lock_follow_instructor''
        then Some (handle_lock_follow_instructor loads)
      else if func_name = ''handle_lock_student_nav''
        then Some (handle_lock_student_nav loads dumps)
      else if func_name = ''handle_sync_to_instructor'' then Some handle_sync_to_instructor
      else if func_name = ''handle_finish_presentation'' then Some handle_finish_presentation
      else None)"

definition on_message ::
  "(string \<Rightarrow> json option) \<Rightarrow> (json \<Rightarrow> string) \<Rightarrow> state \<Rightarrow> nat \<Rightarrow> string
     \<Rightarrow> unit result \<times> state" where
  "on_message loads dumps st c message =
     (let msg_parts = py_split CHR ''|'' message
      in case py_index msg_parts 0 of
           None \<Rightarrow> (Raise IndexError, st)
         | Some name \<Rightarrow>
             (let func_name = ''handle_'' @ name
              in case getattr loads dumps func_name of
                   None \<Rightarrow> (Raise AttributeError, st)
                 | Some func \<Rightarrow> func st c msg_parts))"

section \<open>Vocabulary of the properties\<close>

text \<open>
  \<open>all_open st xs\<close>: no client of \<open>xs\<close> has a closed transport, so every write to one of
  them succeeds. \<open>participants st\<close>: the registered clients whose connection is not the
  instructor's. \<open>deliveries xs msg\<close>: one entry of the trace \<open>sent\<close> per client of \<open>xs\<close>,
  in order.
\<close>

definition all_open :: "state \<Rightarrow> (string \<times> client_obj) list \<Rightarrow> bool" where
  "all_open st xs = list_all (\<lambda>(n, cl). \<not> is_closed (conns st (connection cl))) xs"

definition participants :: "state \<Rightarrow> (string \<times> client_obj) list" where
  "participants st =
     filter (\<lambda>(n, cl). \<not> is_instructor (conns st (connection cl))) (clients st)"

definition deliveries :: "(string \<times> client_obj) list \<Rightarrow> string \<Rightarrow> (nat \<times> string) list" where
  "deliveries xs msg = map (\<lambda>(n, cl). (connection cl, msg)) xs"

text \<open>
  The base candidate of \<^verbatim>\<open>get_safe_nick\<close> (what its two substitutions leave of the
  request) and the candidates its loop goes through: the base, then each candidate
  followed by the next counter.
\<close>

definition safe_base :: "string \<Rightarrow> string" where
  "safe_base initial_nick =
     filter (\<lambda>c. \<not> is_space c) (filter (\<lambda>c. is_word c \<or> is_space c) initial_nick)"

fun candidate :: "string \<Rightarrow> nat \<Rightarrow> string" where
  "candidate base 0 = base"
| "candidate base (Suc k) = candidate base k @ str (Suc k)"

text \<open>
  The states the server can be in: it starts from \<open>init_state\<close>; a connection object is
  created, a client registers under any requested name with any connection, a nick is
  unregistered, a connection sends any message, and the transport of any connection can
  close under the server.
\<close>

inductive reachable :: "state \<Rightarrow> bool" where
  start: "reachable init_state"
| created: "reachable st \<Longrightarrow> reachable (initialize st c)"
| register: "reachable st \<Longrightarrow> reachable (snd (add_client st initial_nick c))"
| unregister: "reachable st \<Longrightarrow> reachable (snd (remove_client st n))"
| message: "reachable st \<Longrightarrow> reachable (snd (on_message loads dumps st c msg))"
| transport_closed: "reachable st \<Longrightarrow> reachable (close_conn st c)"

text \<open>
  Among them, the states of a session as the websocket layer drives it: every
  registration is that of a connection object created for it, which is not in the
  registry yet. \<open>roles_agree\<close>: for every registered client, the \<^verbatim>\<open>instructor\<close> entry of
  its client object and the \<^verbatim>\<open>_is_instructor\<close> attribute of its connection are the same.
\<close>

inductive session :: "state \<Rightarrow> bool" where
  boot: "session init_state"
| connect: "session st \<Longrightarrow> c \<notin> connection ` snd ` set (clients st)
            \<Longrightarrow> session (snd (add_client (initialize st c) initial_nick c))"
| disconnect: "session st \<Longrightarrow> session (snd (remove_client st n))"
| receive: "session st \<Longrightarrow> session (snd (on_message loads dumps st c msg))"
| peer_gone: "session st \<Longrightarrow> session (close_conn st c)"

definition roles_agree :: "state \<Rightarrow> bool" where
  "roles_agree st =
     list_all (\<lambda>(n, cl). is_instructor (conns st (connection cl)) = instructor cl) (clients st)"

text \<open>
  Example rooms. Ann connects first, then Bob, then Cy; in \<open>lecture_room\<close> a presentation
  runs on slide 3 with both flags changed; in \<open>bob_gone\<close> Bob's transport has closed and
  the server has not been told yet; in \<open>bob_drops\<close> Ann has first switched
  \<^verbatim>\<open>_follow_instructor\<close> off with \<^verbatim>\<open>lock_follow_instructor|false\<close>, then Bob's transport
  has closed; \<open>three_bobs\<close> is what three requests for the same name leave.
\<close>

definition ann_bob :: state where
  "ann_bob = snd (add_client (snd (add_client init_state ''Ann'' 0)) ''Bob'' 1)"

definition ann_bob_cy :: state where
  "ann_bob_cy = snd (add_client ann_bob ''Cy'' 2)"

definition lecture_room :: state where
  "lecture_room =
     ann_bob_cy\<lparr>presentation_started := True, follow_instructor := JBool False,
                lock_student_nav := JNull, latest_instructor_state := ''3''\<rparr>"

definition bob_gone :: state where
  "bob_gone = close_conn ann_bob_cy 1"

definition unfollowed :: state where
  "unfollowed =
     snd (on_message (\<lambda>_. Some (JBool False)) (\<lambda>_. []) ann_bob_cy 0
            ''lock_follow_instructor|false'')"

definition bob_drops :: state where
  "bob_drops = close_conn unfollowed 1"

definition three_bobs :: state where
  "three_bobs =
     snd (add_client (snd (add_client (snd (add_client init_state ''Bob'' 0)) ''Bob'' 1))
            ''Bob'' 2)"

section \<open>The write loops\<close>

lemma write_all_eq:
  "write_all st xs msg =
     (if all_open st xs then Return () else Raise StreamClosedError,
      st\<lparr>sent := sent st @ deliveries
         (takeWhile (\<lambda>(n, cl). \<not> is_closed (conns st (connection cl))) xs) msg\<rparr>)"
proof (induction xs arbitrary: st)
  case Nil
  show ?case by (simp add: all_open_def deliveries_def)
next
  case (Cons x xs)
  obtain n cl where x: "x = (n, cl)" by (cases x)
  show ?case
  proof (cases "is_closed (conns st (connection cl))")
    case True
    then show ?thesis
      by (simp add: x write_message_def all_open_def deliveries_def)
  next
    case False
    then show ?thesis
      by (simp add: x write_message_def Cons.IH all_open_def deliveries_def)
  qed
qed

lemma write_participants_eq:
  "write_participants st xs msg =
     write_all st (filter (\<lambda>(n, cl). \<not> is_instructor (conns st (connection cl))) xs) msg"
proof (induction xs arbitrary: st)
  case Nil
  show ?case by simp
next
  case (Cons x xs)
  obtain n cl where x: "x = (n, cl)" by (cases x)
  show ?case
    by (simp add: x write_message_def Cons.IH)
qed

lemma write_all_open:
  assumes "all_open st xs"
  shows "write_all st xs msg = (Return (), st\<lparr>sent := sent st @ deliveries xs msg\<rparr>)"
proof -
  from assms have eq: "takeWhile (\<lambda>(n, cl). \<not> is_closed (conns st (connection cl))) xs = xs"
    by (simp add: all_open_def list_all_iff takeWhile_eq_all_conv)
  show ?thesis
    by (simp add: write_all_eq assms eq)
qed

lemma write_all_first_closed:
  assumes "all_open st pre" and "is_closed (conns st (connection cl))"
  shows "write_all st (pre @ (n, cl) # post) msg =
           (Raise StreamClosedError, st\<lparr>sent := sent st @ deliveries pre msg\<rparr>)"
proof -
  have eq: "takeWhile (\<lambda>(n, cl). \<not> is_closed (conns st (connection cl))) (pre @ (n, cl) # post)
      = pre"
    using assms by (simp add: all_open_def list_all_iff takeWhile_append2 case_prod_beta)
  have "\<not> all_open st (pre @ (n, cl) # post)"
    using assms(2) by (simp add: all_open_def)
  then show ?thesis
    by (simp add: write_all_eq eq)
qed

lemma write_all_frame:
  "clients (snd (write_all st xs msg)) = clients st"
  "nicks (snd (write_all st xs msg)) = nicks st"
  "conns (snd (write_all st xs msg)) = conns st"
  by (simp_all add: write_all_eq)

section \<open>What the operations do to the registry\<close>

lemma snd_rethrow:
  "snd (case m of (Return x, s) \<Rightarrow> (Return (f x s), s) | (Raise e, s) \<Rightarrow> (Raise e, s)) = snd m"
proof -
  obtain r s where "m = (r, s)" by (cases m)
  then show ?thesis by (cases r) simp_all
qed

lemma add_client_clients:
  "clients (snd (add_client st initial_nick c)) =
     AList.update (get_safe_nick st initial_nick)
       \<lparr>nick = get_safe_nick st initial_nick, connection = c, instructor = (clients st = [])\<rparr>
       (clients st)"
  by (simp add: add_client_def Let_def snd_rethrow broadcast_nicklist_def set_instructor_def
      write_all_frame)

lemma add_client_nicks:
  "nicks (snd (add_client st initial_nick c)) =
     set_add (get_safe_nick st initial_nick) (nicks st)"
  by (simp add: add_client_def Let_def snd_rethrow broadcast_nicklist_def set_instructor_def
      write_all_frame)

lemma add_client_conns:
  "conns (snd (add_client st initial_nick c)) =
     (if clients st = [] then (conns st)(c := (conns st c)\<lparr>is_instructor := True\<rparr>)
      else conns st)"
  by (simp add: add_client_def Let_def snd_rethrow broadcast_nicklist_def set_instructor_def
      write_all_frame)

lemma delete_absent: "k \<notin> fst ` set al \<Longrightarrow> AList.delete k al = al"
  by (induction al) (auto simp add: AList.delete_eq)

lemma delete_key_set: "fst ` set (AList.delete k al) = fst ` set al - {k}"
proof -
  have "set (map fst (AList.delete k al)) = set (map fst al) - {k}"
    by (simp add: AList.delete_keys)
  then show ?thesis by simp
qed

lemma update_fresh: "k \<notin> fst ` set al \<Longrightarrow> AList.update k v al = al @ [(k, v)]"
  by (induction al) auto

lemma remove_client_clients:
  "clients (snd (remove_client st n)) = AList.delete n (clients st)"
proof (cases "map_of (clients st) n")
  case None
  then have "n \<notin> fst ` set (clients st)"
    by (simp add: map_of_eq_None_iff)
  then have "AList.delete n (clients st) = clients st"
    by (rule delete_absent)
  with None show ?thesis
    by (simp add: remove_client_def)
next
  case (Some cl)
  then show ?thesis
    by (simp add: remove_client_def Let_def close_conn_def broadcast_nicklist_def
        write_all_frame)
qed

lemma remove_client_nicks:
  "nicks (snd (remove_client st n)) =
     (if n \<in> fst ` set (clients st) then removeAll n (nicks st) else nicks st)"
proof (cases "map_of (clients st) n")
  case None
  moreover from None have "n \<notin> fst ` set (clients st)"
    by (simp add: map_of_eq_None_iff)
  ultimately show ?thesis
    by (simp add: remove_client_def)
next
  case (Some cl)
  then have "n \<in> fst ` set (clients st)"
    using map_of_eq_None_iff [of "clients st" n] by simp
  with Some show ?thesis
    by (simp add: remove_client_def Let_def close_conn_def broadcast_nicklist_def
        write_all_frame)
qed

lemma handlers_frame:
  "clients (snd (handle_start_presentation dumps st c ps)) = clients st"
  "nicks (snd (handle_start_presentation dumps st c ps)) = nicks st"
  "clients (snd (handle_slide_changed st c ps)) = clients st"
  "nicks (snd (handle_slide_changed st c ps)) = nicks st"
  "clients (snd (handle_lock_follow_instructor loads st c ps)) = clients st"
  "nicks (snd (handle_lock_follow_instructor loads st c ps)) = nicks st"
  "clients (snd (handle_lock_student_nav loads dumps st c ps)) = clients st"
  "nicks (snd (handle_lock_student_nav loads dumps st c ps)) = nicks st"
  "clients (snd (handle_sync_to_instructor st c ps)) = clients st"
  "nicks (snd (handle_sync_to_instructor st c ps)) = nicks st"
  "clients (snd (handle_finish_presentation st c ps)) = clients st"
  "nicks (snd (handle_finish_presentation st c ps)) = nicks st"
  by (simp_all add: handle_start_presentation_def handle_slide_changed_def
      handle_lock_follow_instructor_def handle_lock_student_nav_def
      handle_sync_to_instructor_def handle_finish_presentation_def
      broadcast_start_presentation_def broadcast_finish_presentation_def
      broadcast_reveal_state_def broadcast_lock_student_nav_def
      set_instructor_state_def get_instructor_state_def
      write_participants_eq write_all_eq write_message_def Let_def split: option.split)

lemma on_message_frame:
  "clients (snd (on_message loads dumps st c message)) = clients st"
  "nicks (snd (on_message loads dumps st c message)) = nicks st"
  by (simp_all add: on_message_def getattr_def Let_def handlers_frame split: option.split)

lemma on_message_dispatch:
  assumes "py_split CHR ''|'' message = name # payload"
  shows "on_message loads dumps st c message =
           (case getattr loads dumps (''handle_'' @ name) of
              None \<Rightarrow> (Raise AttributeError, st)
            | Some func \<Rightarrow> func st c (name # payload))"
  using assms by (simp add: on_message_def py_index_def)

section \<open>What the allocation loop returns\<close>

lemma safe_nick_loop_fresh: "safe_nick_loop taken s i \<notin> set taken"
proof (induction taken s i rule: safe_nick_loop.induct)
  case (1 taken safe_nick i)
  show ?case
  proof (cases "safe_nick \<in> set taken")
    case True
    with "1.IH" show ?thesis
      by (subst safe_nick_loop.simps) simp
  next
    case False
    then show ?thesis
      by (subst safe_nick_loop.simps) simp
  qed
qed

lemma get_safe_nick_fresh: "get_safe_nick st initial_nick \<notin> set (nicks st)"
  by (simp add: get_safe_nick_def Let_def safe_nick_loop_fresh)

lemma safe_nick_loop_candidate:
  assumes "s = candidate base j" and "i = Suc j"
  shows "\<exists>k\<ge>j. safe_nick_loop taken s i = candidate base k
            \<and> (\<forall>m. j \<le> m \<and> m < k \<longrightarrow> candidate base m \<in> set taken)
            \<and> candidate base k \<notin> set taken"
  using assms
proof (induction taken s i arbitrary: j rule: safe_nick_loop.induct)
  case (1 taken safe_nick i)
  show ?case
  proof (cases "safe_nick \<in> set taken")
    case False
    then have "safe_nick_loop taken safe_nick i = candidate base j"
      using "1.prems" by (subst safe_nick_loop.simps) simp
    with False "1.prems" show ?thesis
      by (intro exI [of _ j]) auto
  next
    case True
    have "safe_nick @ str i = candidate base (Suc j)" and "i + 1 = Suc (Suc j)"
      using "1.prems" by simp_all
    from "1.IH" [OF True this] obtain k where k: "Suc j \<le> k"
      "safe_nick_loop taken (safe_nick @ str i) (i + 1) = candidate base k"
      "\<forall>m. Suc j \<le> m \<and> m < k \<longrightarrow> candidate base m \<in> set taken"
      "candidate base k \<notin> set taken"
      by blast
    have "safe_nick_loop taken safe_nick i = candidate base k"
      using True k(2) by (subst safe_nick_loop.simps) simp
    moreover have "candidate base m \<in> set taken" if "j \<le> m" and "m < k" for m
    proof (cases "m = j")
      case True
      with \<open>safe_nick \<in> set taken\<close> "1.prems" show ?thesis by simp
    next
      case False
      with that k(3) show ?thesis by simp
    qed
    ultimately show ?thesis
      using k(1,4) by (intro exI [of _ k]) simp
  qed
qed

text \<open>
  The nick \<^verbatim>\<open>get_safe_nick\<close> returns is the first candidate that is not taken; the
  candidates are the base, the base followed by 1, then by 12, then by 123, and so on.
\<close>

lemma get_safe_nick_candidate:
  "\<exists>k. get_safe_nick st initial_nick = candidate (safe_base initial_nick) k
       \<and> (\<forall>m<k. candidate (safe_base initial_nick) m \<in> set (nicks st))
       \<and> candidate (safe_base initial_nick) k \<notin> set (nicks st)"
proof -
  from safe_nick_loop_candidate [of "safe_base initial_nick" "safe_base initial_nick" 0 1 "nicks st"]
  obtain k where "safe_nick_loop (nicks st) (safe_base initial_nick) 1 =
        candidate (safe_base initial_nick) k"
    and "\<forall>m. 0 \<le> m \<and> m < k \<longrightarrow> candidate (safe_base initial_nick) m \<in> set (nicks st)"
    and "candidate (safe_base initial_nick) k \<notin> set (nicks st)"
    by auto
  then show ?thesis
    by (intro exI [of _ k]) (simp add: get_safe_nick_def safe_base_def Let_def)
qed

section \<open>Invariants of the registry\<close>

lemma own_nicks_are_keys:
  "list_all (\<lambda>(n, cl). nick cl = n) xs \<Longrightarrow> map (\<lambda>(n, cl). nick cl) xs = map fst xs"
  by (induction xs) auto

lemma reachable_registry:
  assumes "reachable st"
  shows "set (nicks st) = fst ` set (clients st)
       \<and> distinct (map fst (clients st))
       \<and> list_all (\<lambda>(n, cl). nick cl = n) (clients st)"
  using assms
proof (induction rule: reachable.induct)
  case start
  show ?case by (simp add: init_state_def)
next
  case (created st c)
  then show ?case by (simp add: initialize_def)
next
  case (register st initial_nick c)
  let ?k = "get_safe_nick st initial_nick"
  from register.IH get_safe_nick_fresh [of st initial_nick]
  have fresh: "?k \<notin> fst ` set (clients st)" and "?k \<notin> set (nicks st)"
    by simp_all
  with register.IH show ?case
    by (simp add: add_client_clients add_client_nicks update_fresh set_add_def)
next
  case (unregister st n)
  then have keys: "set (nicks st) = fst ` set (clients st)"
    and dist: "distinct (map fst (clients st))"
    and own: "list_all (\<lambda>(n, cl). nick cl = n) (clients st)"
    by simp_all
  have "set (nicks (snd (remove_client st n))) = fst ` set (clients (snd (remove_client st n)))"
    using keys
    by (simp add: remove_client_clients remove_client_nicks delete_key_set)
  moreover have "distinct (map fst (clients (snd (remove_client st n))))"
    using dist by (simp add: remove_client_clients AList.distinct_delete)
  moreover have "list_all (\<lambda>(n, cl). nick cl = n) (clients (snd (remove_client st n)))"
    using own by (simp add: remove_client_clients AList.delete_eq list_all_iff)
  ultimately show ?case by simp
next
  case (message st loads dumps c msg)
  then show ?case by (simp add: on_message_frame)
next
  case (transport_closed st c)
  then show ?case by (simp add: close_conn_def)
qed

lemma count_instructors_update:
  "length (filter (\<lambda>(n, cl). instructor cl) (AList.update k v al))
     \<le> length (filter (\<lambda>(n, cl). instructor cl) al) + (if instructor v then 1 else 0)"
  by (induction al) auto

lemma count_instructors_delete:
  "length (filter (\<lambda>(n, cl). instructor cl) (AList.delete k al))
     \<le> length (filter (\<lambda>(n, cl). instructor cl) al)"
  by (induction al) auto

lemma reachable_one_instructor:
  assumes "reachable st"
  shows "length (filter (\<lambda>(n, cl). instructor cl) (clients st)) \<le> 1"
  using assms
proof (induction rule: reachable.induct)
  case start
  show ?case by (simp add: init_state_def)
next
  case (created st c)
  then show ?case by (simp add: initialize_def)
next
  case (register st initial_nick c)
  show ?case
  proof (cases "clients st = []")
    case True
    then show ?thesis by (simp add: add_client_clients)
  next
    case False
    with register.IH
      count_instructors_update [of "get_safe_nick st initial_nick"
        "\<lparr>nick = get_safe_nick st initial_nick, connection = c, instructor = False\<rparr>"
        "clients st"]
    show ?thesis by (simp add: add_client_clients)
  qed
next
  case (unregister st n)
  with count_instructors_delete [of n "clients st"] show ?case
    by (simp add: remove_client_clients)
next
  case (message st loads dumps c msg)
  then show ?case by (simp add: on_message_frame)
next
  case (transport_closed st c)
  then show ?case by (simp add: close_conn_def)
qed

section \<open>The two records of the role agree\<close>

lemma update_entries: "set (AList.update k v al) \<subseteq> insert (k, v) (set al)"
  by (induction al) auto

lemma handlers_conns:
  "conns (snd (handle_start_presentation dumps st c ps)) = conns st"
  "conns (snd (handle_slide_changed st c ps)) = conns st"
  "conns (snd (handle_lock_follow_instructor loads st c ps)) = conns st"
  "conns (snd (handle_lock_student_nav loads dumps st c ps)) = conns st"
  "conns (snd (handle_sync_to_instructor st c ps)) = conns st"
  "conns (snd (handle_finish_presentation st c ps)) = conns st"
  by (simp_all add: handle_start_presentation_def handle_slide_changed_def
      handle_lock_follow_instructor_def handle_lock_student_nav_def
      handle_sync_to_instructor_def handle_finish_presentation_def
      broadcast_start_presentation_def broadcast_finish_presentation_def
      broadcast_reveal_state_def broadcast_lock_student_nav_def
      set_instructor_state_def get_instructor_state_def
      write_participants_eq write_all_eq write_message_def Let_def split: option.split)

lemma on_message_conns: "conns (snd (on_message loads dumps st c message)) = conns st"
  by (simp add: on_message_def getattr_def Let_def handlers_conns split: option.split)

lemma remove_client_roles:
  "is_instructor (conns (snd (remove_client st n)) c) = is_instructor (conns st c)"
  by (simp add: remove_client_def Let_def close_conn_def broadcast_nicklist_def
      write_all_frame split: option.split)

lemma session_reachable:
  assumes "session st"
  shows "reachable st"
  using assms
  by (induction rule: session.induct) (auto intro: reachable.intros)

lemma session_roles_agree:
  assumes "session st"
  shows "roles_agree st"
  using assms
proof (induction rule: session.induct)
  case boot
  show ?case by (simp add: roles_agree_def init_state_def)
next
  case (connect st c initial_nick)
  let ?st' = "snd (add_client (initialize st c) initial_nick c)"
  let ?k = "get_safe_nick (initialize st c) initial_nick"
  let ?v = "\<lparr>nick = ?k, connection = c, instructor = (clients st = [])\<rparr>"
  have cl: "clients ?st' = AList.update ?k ?v (clients st)"
    by (simp add: add_client_clients initialize_def)
  have flag: "is_instructor (conns ?st' c) = (clients st = [])"
    by (simp add: add_client_conns initialize_def new_conn_def)
  have other: "conns ?st' d = conns st d" if "d \<noteq> c" for d
    using that by (simp add: add_client_conns initialize_def)
  have "is_instructor (conns ?st' (connection x)) = instructor x"
    if "(m, x) \<in> set (clients ?st')" for m x
  proof (cases "(m, x) = (?k, ?v)")
    case True
    then show ?thesis using flag by simp
  next
    case False
    with that cl update_entries [of ?k ?v "clients st"] have old: "(m, x) \<in> set (clients st)"
      by auto
    then have "connection x \<noteq> c"
      using connect.hyps(2) by force
    with old connect.IH other show ?thesis
      by (auto simp add: roles_agree_def list_all_iff)
  qed
  then show ?case
    by (auto simp add: roles_agree_def list_all_iff)
next
  case (disconnect st n)
  then show ?case
    by (auto simp add: roles_agree_def list_all_iff remove_client_clients remove_client_roles
        AList.delete_eq)
next
  case (receive st loads dumps c msg)
  then show ?case
    by (simp add: roles_agree_def on_message_frame on_message_conns)
next
  case (peer_gone st c)
  then show ?case
    by (auto simp add: roles_agree_def close_conn_def list_all_iff)
qed

text \<open>
  So in a session at most one registered client has a connection whose
  \<^verbatim>\<open>_is_instructor\<close> is set, the attribute the handlers read.
\<close>

lemma session_one_instructor_connection:
  assumes "session st"
  shows "length (filter (\<lambda>(n, cl). is_instructor (conns st (connection cl))) (clients st)) \<le> 1"
proof -
  from session_roles_agree [OF assms]
  have "filter (\<lambda>(n, cl). is_instructor (conns st (connection cl))) (clients st) =
        filter (\<lambda>(n, cl). instructor cl) (clients st)"
    by (auto simp add: roles_agree_def list_all_iff intro!: filter_cong)
  with reachable_one_instructor [OF session_reachable [OF assms]] show ?thesis
    by simp
qed

section \<open>The example rooms, evaluated\<close>

lemma ann_bob_eq:
  "ann_bob =
     \<lparr>clients = [(''Ann'', \<lparr>nick = ''Ann'', connection = 0, instructor = True\<rparr>),
                 (''Bob'', \<lparr>nick = ''Bob'', connection = 1, instructor = False\<rparr>)],
      nicks = [''Ann'', ''Bob''],
      sc_instructor = Some \<lparr>nick = ''Ann'', connection = 0, instructor = True\<rparr>,
      presentation_started = False,
      follow_instructor = JBool True, lock_student_nav = JBool True,
      latest_instructor_state = [],
      conns = (\<lambda>_. new_conn)(0 := new_conn\<lparr>is_instructor := True\<rparr>),
      sent = [(0, ''nicklist|<ul><li>Ann</li></ul>''),
              (0, ''nicklist|<ul><li>Ann</li><li>Bob</li></ul>''),
              (1, ''nicklist|<ul><li>Ann</li><li>Bob</li></ul>'')]\<rparr>"
  by (simp add: ann_bob_def add_client_def init_state_def get_safe_nick_def is_word_def
      is_space_def safe_nick_loop.simps str.simps set_instructor_def set_add_def broadcast_nicklist_def
      nicklist_msg_def write_message_def new_conn_def Let_def)

lemma ann_bob_cy_eq:
  "ann_bob_cy =
     \<lparr>clients = [(''Ann'', \<lparr>nick = ''Ann'', connection = 0, instructor = True\<rparr>),
                 (''Bob'', \<lparr>nick = ''Bob'', connection = 1, instructor = False\<rparr>),
                 (''Cy'', \<lparr>nick = ''Cy'', connection = 2, instructor = False\<rparr>)],
      nicks = [''Ann'', ''Bob'', ''Cy''],
      sc_instructor = Some \<lparr>nick = ''Ann'', connection = 0, instructor = True\<rparr>,
      presentation_started = False,
      follow_instructor = JBool True, lock_student_nav = JBool True,
      latest_instructor_state = [],
      conns = (\<lambda>_. new_conn)(0 := new_conn\<lparr>is_instructor := True\<rparr>),
      sent = [(0, ''nicklist|<ul><li>Ann</li></ul>''),
              (0, ''nicklist|<ul><li>Ann</li><li>Bob</li></ul>''),
              (1, ''nicklist|<ul><li>Ann</li><li>Bob</li></ul>''),
              (0, ''nicklist|<ul><li>Ann</li><li>Bob</li><li>Cy</li></ul>''),
              (1, ''nicklist|<ul><li>Ann</li><li>Bob</li><li>Cy</li></ul>''),
              (2, ''nicklist|<ul><li>Ann</li><li>Bob</li><li>Cy</li></ul>'')]\<rparr>"
  by (simp add: ann_bob_cy_def ann_bob_eq add_client_def get_safe_nick_def is_word_def
      is_space_def safe_nick_loop.simps str.simps set_instructor_def set_add_def broadcast_nicklist_def
      nicklist_msg_def write_message_def new_conn_def Let_def)

lemma reachable_ann_bob: "reachable ann_bob"
  unfolding ann_bob_def by (intro reachable.register reachable.start)

lemma reachable_bob_gone: "reachable bob_gone"
  unfolding bob_gone_def ann_bob_cy_def ann_bob_def
  by (intro reachable.transport_closed reachable.register reachable.start)

lemma bob_gone_eq:
  "bob_gone = ann_bob_cy\<lparr>conns := (\<lambda>_. new_conn)(0 := new_conn\<lparr>is_instructor := True\<rparr>,
                                              1 := new_conn\<lparr>is_closed := True\<rparr>)\<rparr>"
  by (simp add: bob_gone_def close_conn_def ann_bob_cy_eq)

lemma bob_drops_eq:
  "bob_drops =
     ann_bob_cy\<lparr>follow_instructor := JBool False,
                conns := (\<lambda>_. new_conn)(0 := new_conn\<lparr>is_instructor := True\<rparr>,
                                          1 := new_conn\<lparr>is_closed := True\<rparr>)\<rparr>"
  by (simp add: bob_drops_def unfollowed_def close_conn_def on_message_def py_index_def
      getattr_def handle_lock_follow_instructor_def ann_bob_cy_eq new_conn_def)

lemma initialize_fresh: "conns st c = new_conn \<Longrightarrow> initialize st c = st"
  by (simp add: initialize_def fun_upd_idem)

lemma session_ann_bob_cy: "session ann_bob_cy"
proof -
  have a: "session (snd (add_client (initialize init_state 0) ''Ann'' 0))"
    by (rule session.connect [OF session.boot]) (simp add: init_state_def)
  have "initialize init_state 0 = init_state"
    by (rule initialize_fresh) (simp add: init_state_def)
  with a have s1: "session (snd (add_client init_state ''Ann'' 0))"
    by simp
  have "session (snd (add_client (initialize (snd (add_client init_state ''Ann'' 0)) 1) ''Bob'' 1))"
    by (rule session.connect [OF s1])
      (simp add: add_client_clients init_state_def get_safe_nick_def is_word_def is_space_def
        safe_nick_loop.simps)
  moreover have "initialize (snd (add_client init_state ''Ann'' 0)) 1 =
      snd (add_client init_state ''Ann'' 0)"
    by (rule initialize_fresh) (simp add: add_client_conns init_state_def)
  ultimately have s2: "session ann_bob"
    by (simp add: ann_bob_def)
  have "session (snd (add_client (initialize ann_bob 2) ''Cy'' 2))"
    by (rule session.connect [OF s2]) (simp add: ann_bob_eq)
  moreover have "initialize ann_bob 2 = ann_bob"
    by (rule initialize_fresh) (simp add: ann_bob_eq)
  ultimately show ?thesis
    by (simp add: ann_bob_cy_def)
qed

lemma session_bob_drops: "session bob_drops"
  unfolding bob_drops_def unfollowed_def
  by (intro session.peer_gone session.receive session_ann_bob_cy)

lemma reachable_three_bobs: "reachable three_bobs"
  unfolding three_bobs_def by (intro reachable.register reachable.start)

lemma three_bobs_clients:
  "clients three_bobs =
     [(''Bob'', \<lparr>nick = ''Bob'', connection = 0, instructor = True\<rparr>),
      (''Bob1'', \<lparr>nick = ''Bob1'', connection = 1, instructor = False\<rparr>),
      (''Bob12'', \<lparr>nick = ''Bob12'', connection = 2, instructor = False\<rparr>)]"
  by (simp add: three_bobs_def add_client_clients add_client_nicks init_state_def
      get_safe_nick_def is_word_def is_space_def safe_nick_loop.simps str.simps set_add_def
      digit_char_def)

text \<open>
  The session of the spec's last testable property, run on the model: Ann, the
  instructor, sends \<^verbatim>\<open>slide_changed|3\<close>; the state 3 is stored and written to Bob alone.
  Bob then sends \<^verbatim>\<open>sync_to_instructor\<close> and alone is written the state again.
\<close>

lemma ann_changes_slide:
  "on_message loads dumps ann_bob 0 ''slide_changed|3'' =
     (Return (), ann_bob\<lparr>latest_instructor_state := ''3'',
                          sent := sent ann_bob @ [(1, ''instructor_state|3'')]\<rparr>)"
  by (simp add: on_message_def py_index_def getattr_def handle_slide_changed_def
      set_instructor_state_def broadcast_reveal_state_def write_message_def ann_bob_eq
      new_conn_def)

lemma bob_syncs:
  "on_message loads dumps (snd (on_message loads dumps ann_bob 0 ''slide_changed|3'')) 1
       ''sync_to_instructor'' =
     (Return (), ann_bob\<lparr>latest_instructor_state := ''3'',
                          sent := sent ann_bob @ [(1, ''instructor_state|3''),
                                                  (1, ''instructor_state|3'')]\<rparr>)"
  by (simp add: ann_changes_slide)
    (simp add: on_message_def py_index_def getattr_def handle_sync_to_instructor_def
      get_instructor_state_def write_message_def ann_bob_eq new_conn_def)

section \<open>Nickname allocation (C1)\<close>

text \<open>
  Claim C1: allocation sanitizes the request to a base and, when the base is taken,
  probes the base followed by 1, by 2, and so on, returning the first candidate that is
  not taken; with Bob and Bob1 taken, a request for Bob is given Bob2.

  The loop of \<^verbatim>\<open>get_safe_nick\<close> appends the counter to the candidate of the round before
  (\<^verbatim>\<open>safe_nick = safe_nick + str(i)\<close>), not to the base. The first probe is the one the
  claim names; from the second on the candidates differ (\<open>get_safe_nick_candidate\<close>): in
  any state where exactly Bob and Bob1 are taken, a request for Bob is given Bob12,
  although Bob2 is free.
\<close>

theorem get_safe_nick_second_probe:
  "get_safe_nick (st\<lparr>nicks := [''Bob'', ''Bob1'']\<rparr>) ''Bob'' = ''Bob12''
   \<and> ''Bob2'' \<notin> set (nicks (st\<lparr>nicks := [''Bob'', ''Bob1'']\<rparr>))"
  by (simp add: get_safe_nick_def is_word_def is_space_def safe_nick_loop.simps str.simps digit_char_def)

section \<open>Unknown commands (C2)\<close>

text \<open>
  Claim C2: a message whose command name is not a known command is ignored: no state
  changes, no exception leaves the dispatcher, the connection is not closed or errored.

  \<^verbatim>\<open>on_message\<close> guards the call with \<^verbatim>\<open>if (func and callable(func))\<close>, but the lookup
  before it, \<^verbatim>\<open>getattr(self, func_name)\<close>, has no default: for the message \<^verbatim>\<open>bogus\<close>,
  from any connection in any state, the state is left as it was and \<^verbatim>\<open>AttributeError\<close>
  leaves the dispatcher.
\<close>

theorem unknown_command_raises:
  "on_message loads dumps st c ''bogus'' = (Raise AttributeError, st)"
  by (simp add: on_message_def py_index_def getattr_def)

text \<open>The same for every name that is not one of the six commands.\<close>

lemma unknown_commands_raise:
  assumes "py_split CHR ''|'' message = name # payload"
    and "name \<notin> {''start_presentation'', ''slide_changed'', ''lock_follow_instructor'',
                   ''lock_student_nav'', ''sync_to_instructor'', ''finish_presentation''}"
  shows "on_message loads dumps st c message = (Raise AttributeError, st)"
  using assms(2) by (simp add: on_message_dispatch [OF assms(1)] getattr_def)

section \<open>Unregistering an unknown nick (C3)\<close>

text \<open>
  Claim C3: for a nick that is not in the registry, unregistering is a no-op that does
  not raise: registry, nick set and room state are unchanged, no handle is closed or
  written to.

  As the code has it: \<^verbatim>\<open>remove_client\<close> starts with \<^verbatim>\<open>self.clients[nick]\<close>, which raises
  \<^verbatim>\<open>KeyError\<close> for such a nick before anything else happens. The whole state (registry,
  nick set, flags, connections, trace of writes) is left as it was, and the call raises.
\<close>

theorem remove_client_absent_raises:
  assumes "n \<notin> fst ` set (clients st)"
  shows "remove_client st n = (Raise KeyError, st)"
proof -
  from assms have "map_of (clients st) n = None"
    by (simp add: map_of_eq_None_iff)
  then show ?thesis
    by (simp add: remove_client_def)
qed

theorem remove_client_absent_raises_witness:
  "''Zed'' \<notin> fst ` set (clients ann_bob)
   \<and> remove_client ann_bob ''Zed'' = (Raise KeyError, ann_bob)"
  using remove_client_absent_raises [of "''Zed''" ann_bob]
  by (simp add: ann_bob_eq)

text \<open>Against C3 as stated: with Ann and Bob registered, unregistering Zed raises.\<close>

theorem remove_client_absent_not_silent:
  "''Zed'' \<notin> fst ` set (clients ann_bob) \<and> fst (remove_client ann_bob ''Zed'') = Raise KeyError"
  by (simp add: ann_bob_eq remove_client_def)

section \<open>Instructor-only commands from a participant (C4)\<close>

text \<open>
  Claim C4: when a client that is not the instructor sends \<^verbatim>\<open>start_presentation\<close>,
  \<^verbatim>\<open>slide_changed\<close>, \<^verbatim>\<open>lock_follow_instructor\<close>, \<^verbatim>\<open>lock_student_nav\<close> or
  \<^verbatim>\<open>finish_presentation\<close>, with any payload or none, no field of the room state changes and
  no message is sent to any client: the state after the dispatcher, trace of writes
  included, is the state before it.
\<close>

theorem participant_commands_change_nothing:
  assumes "\<not> is_instructor (conns st c)"
    and "name \<in> {''start_presentation'', ''slide_changed'', ''lock_follow_instructor'',
                   ''lock_student_nav'', ''finish_presentation''}"
    and "py_split CHR ''|'' message = name # payload"
  shows "snd (on_message loads dumps st c message) = st"
proof -
  have "snd (handle_start_presentation dumps st c (name # payload)) = st"
    and "snd (handle_slide_changed st c (name # payload)) = st"
    and "snd (handle_lock_follow_instructor loads st c (name # payload)) = st"
    and "snd (handle_lock_student_nav loads dumps st c (name # payload)) = st"
    and "snd (handle_finish_presentation st c (name # payload)) = st"
    using assms(1)
    by (simp_all add: handle_start_presentation_def handle_slide_changed_def
        handle_lock_follow_instructor_def handle_lock_student_nav_def
        handle_finish_presentation_def split: option.split)
  with assms(2) show ?thesis
    by (auto simp add: on_message_dispatch [OF assms(3)] getattr_def)
qed

theorem participant_commands_change_nothing_witness:
  "\<not> is_instructor (conns ann_bob 1)
   \<and> ''lock_student_nav'' \<in> {''start_presentation'', ''slide_changed'',
        ''lock_follow_instructor'', ''lock_student_nav'', ''finish_presentation''}
   \<and> py_split CHR ''|'' ''lock_student_nav|false'' = ''lock_student_nav'' # [''false'']
   \<and> snd (on_message (\<lambda>_. Some (JBool False)) (\<lambda>_. ''false'') ann_bob 1
            ''lock_student_nav|false'') = ann_bob"
  using participant_commands_change_nothing [where st = ann_bob and c = 1
      and name = "''lock_student_nav''" and message = "''lock_student_nav|false''"
      and payload = "[''false'']" and loads = "\<lambda>_. Some (JBool False)"
      and dumps = "\<lambda>_. ''false''"]
  by (simp add: ann_bob_eq new_conn_def)

section \<open>One instructor (C5)\<close>

text \<open>
  Claim C5: in every reachable state at most one registered client has the instructor
  role, and a registration is given the instructor role exactly when the registry is
  empty at that moment. The role is read where \<^verbatim>\<open>add_client\<close> writes it: the
  \<^verbatim>\<open>instructor\<close> entry of the client object it stores under the final nick, and the
  \<^verbatim>\<open>_is_instructor\<close> attribute of a connection that comes freshly initialised. In a
  session the two are the same for every registered client (\<open>session_roles_agree\<close>).
\<close>

theorem at_most_one_instructor:
  assumes "reachable st"
  shows "length (filter (\<lambda>(n, cl). instructor cl) (clients st)) \<le> 1
       \<and> map_of (clients (snd (add_client st initial_nick c))) (get_safe_nick st initial_nick) =
           Some \<lparr>nick = get_safe_nick st initial_nick, connection = c,
                 instructor = (clients st = [])\<rparr>
       \<and> is_instructor (conns (snd (add_client (initialize st c) initial_nick c)) c) =
           (clients st = [])"
proof -
  have "map_of (clients (snd (add_client st initial_nick c))) (get_safe_nick st initial_nick) =
           Some \<lparr>nick = get_safe_nick st initial_nick, connection = c,
                 instructor = (clients st = [])\<rparr>"
    by (simp add: add_client_clients AList.update_conv')
  moreover have "is_instructor (conns (snd (add_client (initialize st c) initial_nick c)) c) =
           (clients st = [])"
    by (simp add: add_client_conns initialize_def new_conn_def)
  ultimately show ?thesis
    using reachable_one_instructor [OF assms] by simp
qed

theorem at_most_one_instructor_witness:
  "reachable ann_bob
   \<and> length (filter (\<lambda>(n, cl). instructor cl) (clients ann_bob)) \<le> 1
   \<and> map_of (clients (snd (add_client ann_bob ''Bob'' 2))) ''Bob1'' =
       Some \<lparr>nick = ''Bob1'', connection = 2, instructor = False\<rparr>
   \<and> \<not> is_instructor (conns (snd (add_client (initialize ann_bob 2) ''Bob'' 2)) 2)"
proof -
  have "get_safe_nick ann_bob ''Bob'' = ''Bob1''"
    by (simp add: ann_bob_eq get_safe_nick_def is_word_def is_space_def safe_nick_loop.simps str.simps
        digit_char_def)
  moreover have "clients ann_bob \<noteq> []"
    by (simp add: ann_bob_eq)
  ultimately show ?thesis
    using at_most_one_instructor [OF reachable_ann_bob, of "''Bob''" 2] reachable_ann_bob
    by simp
qed

section \<open>Distinct nicks (C6)\<close>

text \<open>
  Claim C6: in every reachable state the nicks of the registry are pairwise distinct and
  non-empty.

  As the code has it: in every reachable state the nicks of the registry are pairwise
  distinct, the keys of \<^verbatim>\<open>clients\<close> as well as the nicks recorded in the client objects.
  Nothing in \<^verbatim>\<open>get_safe_nick\<close> or \<^verbatim>\<open>add_client\<close> refuses the empty string, which is a nick
  like any other.
\<close>

theorem nicks_pairwise_distinct:
  assumes "reachable st"
  shows "distinct (map fst (clients st)) \<and> distinct (map (\<lambda>(n, cl). nick cl) (clients st))"
proof -
  from reachable_registry [OF assms]
  have dist: "distinct (map fst (clients st))"
    and own: "list_all (\<lambda>(n, cl). nick cl = n) (clients st)"
    by simp_all
  from own have eq: "map (\<lambda>(n, cl). nick cl) (clients st) = map fst (clients st)"
    by (rule own_nicks_are_keys)
  show ?thesis
    unfolding eq using dist by simp
qed

theorem nicks_pairwise_distinct_witness:
  "reachable three_bobs
   \<and> map fst (clients three_bobs) = [''Bob'', ''Bob1'', ''Bob12'']
   \<and> distinct (map fst (clients three_bobs))
   \<and> distinct (map (\<lambda>(n, cl). nick cl) (clients three_bobs))"
  using nicks_pairwise_distinct [OF reachable_three_bobs] reachable_three_bobs
  by (simp add: three_bobs_clients)

text \<open>
  Against C6 as stated: the first client asks for the name \<^verbatim>\<open>?!\<close>, which sanitizes to the
  empty string, and is registered under the empty nick.
\<close>

theorem empty_nick_registered:
  "reachable (snd (add_client init_state ''?!'' 0))
   \<and> [] \<in> fst ` set (clients (snd (add_client init_state ''?!'' 0)))"
proof -
  have "reachable (snd (add_client init_state ''?!'' 0))"
    by (rule reachable.register) (rule reachable.start)
  moreover have "clients (snd (add_client init_state ''?!'' 0)) =
      [([], \<lparr>nick = [], connection = 0, instructor = True\<rparr>)]"
    by (simp add: add_client_clients get_safe_nick_def init_state_def is_word_def is_space_def
        safe_nick_loop.simps str.simps)
  ultimately show ?thesis by simp
qed

section \<open>Finishing a presentation (C7)\<close>

text \<open>
  Claim C7: whenever the instructor sends \<^verbatim>\<open>finish_presentation\<close>, whatever the flags
  were before, the presentation is no longer started, \<^verbatim>\<open>_follow_instructor\<close> and
  \<^verbatim>\<open>_lock_student_nav\<close> are both \<^verbatim>\<open>True\<close>, and the message \<^verbatim>\<open>finish_presentation\<close>, with no
  payload, has been written to every registered client, the instructor included.

  As the code has it: that is what happens when no registered client has a closed
  transport, whatever the flags were before and whatever follows the command name.
  \<^verbatim>\<open>broadcast_finish_presentation\<close> resets the three fields after its loop of writes, and
  no write is guarded: when a registered client's transport is closed the loop stops at
  the first such client with the write's exception, the clients before it have been
  written to, that client and the clients after it have not, and the three fields keep
  the values they had.
\<close>

theorem finish_presentation_resets:
  assumes "is_instructor (conns st c)"
    and "py_split CHR ''|'' message = ''finish_presentation'' # payload"
  shows "(all_open st (clients st) \<longrightarrow>
            on_message loads dumps st c message =
              (Return (),
               st\<lparr>sent := sent st @ deliveries (clients st) ''finish_presentation'',
                  presentation_started := False,
                  follow_instructor := JBool True,
                  lock_student_nav := JBool True\<rparr>))
       \<and> (\<not> all_open st (clients st) \<longrightarrow>
            on_message loads dumps st c message =
              (Raise StreamClosedError,
               st\<lparr>sent := sent st @ deliveries
                  (takeWhile (\<lambda>(n, cl). \<not> is_closed (conns st (connection cl))) (clients st))
                  ''finish_presentation''\<rparr>))"
proof -
  have "on_message loads dumps st c message =
          handle_finish_presentation st c (''finish_presentation'' # payload)"
    by (simp add: on_message_dispatch [OF assms(2)] getattr_def)
  also have "\<dots> = broadcast_finish_presentation st"
    using assms(1) by (simp add: handle_finish_presentation_def)
  finally have disp: "on_message loads dumps st c message = broadcast_finish_presentation st" .
  have "on_message loads dumps st c message =
      (Return (),
       st\<lparr>sent := sent st @ deliveries (clients st) ''finish_presentation'',
          presentation_started := False,
          follow_instructor := JBool True,
          lock_student_nav := JBool True\<rparr>)"
    if "all_open st (clients st)"
    by (simp add: disp broadcast_finish_presentation_def write_all_open [OF that])
  moreover have "on_message loads dumps st c message =
      (Raise StreamClosedError,
       st\<lparr>sent := sent st @ deliveries
          (takeWhile (\<lambda>(n, cl). \<not> is_closed (conns st (connection cl))) (clients st))
          ''finish_presentation''\<rparr>)"
    if "\<not> all_open st (clients st)"
    using that by (simp add: disp broadcast_finish_presentation_def write_all_eq)
  ultimately show ?thesis by blast
qed

theorem finish_presentation_resets_witness:
  "is_instructor (conns lecture_room 0)
   \<and> py_split CHR ''|'' ''finish_presentation'' = ''finish_presentation'' # []
   \<and> all_open lecture_room (clients lecture_room)
   \<and> follow_instructor lecture_room = JBool False
   \<and> lock_student_nav lecture_room = JNull
   \<and> on_message (\<lambda>_. None) (\<lambda>_. []) lecture_room 0 ''finish_presentation'' =
       (Return (),
        lecture_room\<lparr>sent := sent lecture_room @
                        [(0, ''finish_presentation''), (1, ''finish_presentation''),
                         (2, ''finish_presentation'')],
                     presentation_started := False,
                     follow_instructor := JBool True,
                     lock_student_nav := JBool True\<rparr>)
   \<and> is_instructor (conns bob_gone 0)
   \<and> \<not> all_open bob_gone (clients bob_gone)
   \<and> on_message (\<lambda>_. None) (\<lambda>_. []) bob_gone 0 ''finish_presentation'' =
       (Raise StreamClosedError,
        bob_gone\<lparr>sent := sent bob_gone @ [(0, ''finish_presentation'')]\<rparr>)"
  using finish_presentation_resets [where st = lecture_room and c = 0
      and message = "''finish_presentation''" and payload = "[]"
      and loads = "\<lambda>_. None" and dumps = "\<lambda>_. []"]
    finish_presentation_resets [where st = bob_gone and c = 0
      and message = "''finish_presentation''" and payload = "[]"
      and loads = "\<lambda>_. None" and dumps = "\<lambda>_. []"]
  by (simp add: lecture_room_def bob_gone_eq ann_bob_cy_eq all_open_def deliveries_def
      new_conn_def)

text \<open>
  Against C7 as stated: Ann, Bob and Cy are connected, Ann has switched
  \<^verbatim>\<open>_follow_instructor\<close> off, and Bob's transport has closed. Ann's
  \<^verbatim>\<open>finish_presentation\<close> raises, \<^verbatim>\<open>_follow_instructor\<close> is still off afterwards, and Cy,
  who is registered and whose transport is open, has been written nothing.
\<close>

theorem finish_presentation_not_always:
  "session bob_drops
   \<and> is_instructor (conns bob_drops 0)
   \<and> follow_instructor bob_drops = JBool False
   \<and> ''Cy'' \<in> fst ` set (clients bob_drops)
   \<and> \<not> is_closed (conns bob_drops 2)
   \<and> fst (on_message (\<lambda>_. None) (\<lambda>_. []) bob_drops 0 ''finish_presentation'') =
       Raise StreamClosedError
   \<and> follow_instructor (snd (on_message (\<lambda>_. None) (\<lambda>_. []) bob_drops 0
         ''finish_presentation'')) = JBool False
   \<and> sent (snd (on_message (\<lambda>_. None) (\<lambda>_. []) bob_drops 0 ''finish_presentation'')) =
       sent bob_drops @ [(0, ''finish_presentation'')]"
  using session_bob_drops
  by (simp add: bob_drops_eq ann_bob_cy_eq on_message_def py_index_def getattr_def
      handle_finish_presentation_def broadcast_finish_presentation_def write_all_eq
      all_open_def deliveries_def new_conn_def)

section \<open>Synchronising to the instructor (C8)\<close>

text \<open>
  Claim C8: \<^verbatim>\<open>sync_to_instructor\<close> depends on who sends it. From a client that is not the
  instructor, exactly one message \<^verbatim>\<open>instructor_state|\<close> followed by the latest instructor
  state is written, to the sender's own connection, and nothing to anyone else. From the
  instructor, that message is written once to every registered client that is not the
  instructor, and nothing to the instructor.

  As the code has it: that is what happens when the transports written to are open
  (the sender's own, or those of all registered clients that are not the instructor).
  No write is guarded: a sender that is not the instructor and whose transport is closed
  gets the write's exception and nothing is written; the instructor's broadcast stops at
  the first client that is not the instructor and whose transport is closed, with the
  exception, and that client and those after it are written nothing. In every case the
  instructor is written nothing by its own command, and nothing else of the state
  changes.
\<close>

theorem sync_to_instructor_asymmetric:
  assumes "py_split CHR ''|'' message = ''sync_to_instructor'' # payload"
    and "msg = ''instructor_state|'' @ latest_instructor_state st"
  shows "(\<not> is_instructor (conns st c) \<and> \<not> is_closed (conns st c) \<longrightarrow>
            on_message loads dumps st c message =
              (Return (), st\<lparr>sent := sent st @ [(c, msg)]\<rparr>))
       \<and> (\<not> is_instructor (conns st c) \<and> is_closed (conns st c) \<longrightarrow>
            on_message loads dumps st c message = (Raise StreamClosedError, st))
       \<and> (is_instructor (conns st c) \<and> all_open st (participants st) \<longrightarrow>
            on_message loads dumps st c message =
              (Return (), st\<lparr>sent := sent st @ deliveries (participants st) msg\<rparr>))
       \<and> (is_instructor (conns st c) \<and> \<not> all_open st (participants st) \<longrightarrow>
            on_message loads dumps st c message =
              (Raise StreamClosedError,
               st\<lparr>sent := sent st @ deliveries
                  (takeWhile (\<lambda>(n, cl). \<not> is_closed (conns st (connection cl)))
                     (participants st)) msg\<rparr>))
       \<and> (is_instructor (conns st c) \<longrightarrow> c \<notin> fst ` set (deliveries (participants st) msg))"
proof -
  have disp: "on_message loads dumps st c message =
          handle_sync_to_instructor st c (''sync_to_instructor'' # payload)"
    by (simp add: on_message_dispatch [OF assms(1)] getattr_def)
  have bcast: "on_message loads dumps st c message = write_all st (participants st) msg"
    if "is_instructor (conns st c)"
    using that
    by (simp add: disp handle_sync_to_instructor_def get_instructor_state_def
        broadcast_reveal_state_def write_participants_eq assms(2) participants_def)
  have ucast: "on_message loads dumps st c message = write_message st c msg"
    if "\<not> is_instructor (conns st c)"
    using that
    by (simp add: disp handle_sync_to_instructor_def get_instructor_state_def assms(2))
  have "c \<notin> fst ` set (deliveries (participants st) msg)" if "is_instructor (conns st c)"
    using that by (auto simp add: deliveries_def participants_def)
  moreover have "on_message loads dumps st c message =
      (Return (), st\<lparr>sent := sent st @ deliveries (participants st) msg\<rparr>)"
    if "is_instructor (conns st c)" and "all_open st (participants st)"
    by (simp add: bcast [OF that(1)] write_all_open [OF that(2)])
  moreover have "on_message loads dumps st c message =
      (Raise StreamClosedError,
       st\<lparr>sent := sent st @ deliveries
          (takeWhile (\<lambda>(n, cl). \<not> is_closed (conns st (connection cl)))
             (participants st)) msg\<rparr>)"
    if "is_instructor (conns st c)" and "\<not> all_open st (participants st)"
    using that(2) by (simp add: bcast [OF that(1)] write_all_eq)
  moreover have "on_message loads dumps st c message =
      (Return (), st\<lparr>sent := sent st @ [(c, msg)]\<rparr>)"
    if "\<not> is_instructor (conns st c)" and "\<not> is_closed (conns st c)"
    using that(2) by (simp add: ucast [OF that(1)] write_message_def)
  moreover have "on_message loads dumps st c message = (Raise StreamClosedError, st)"
    if "\<not> is_instructor (conns st c)" and "is_closed (conns st c)"
    using that(2) by (simp add: ucast [OF that(1)] write_message_def)
  ultimately show ?thesis by blast
qed

theorem sync_to_instructor_asymmetric_witness:
  "py_split CHR ''|'' ''sync_to_instructor'' = ''sync_to_instructor'' # []
   \<and> ''instructor_state|3'' = ''instructor_state|'' @ latest_instructor_state lecture_room
   \<and> \<not> is_instructor (conns lecture_room 1) \<and> \<not> is_closed (conns lecture_room 1)
   \<and> on_message (\<lambda>_. None) (\<lambda>_. []) lecture_room 1 ''sync_to_instructor'' =
       (Return (), lecture_room\<lparr>sent := sent lecture_room @ [(1, ''instructor_state|3'')]\<rparr>)
   \<and> is_instructor (conns lecture_room 0) \<and> all_open lecture_room (participants lecture_room)
   \<and> on_message (\<lambda>_. None) (\<lambda>_. []) lecture_room 0 ''sync_to_instructor'' =
       (Return (), lecture_room\<lparr>sent := sent lecture_room @
          [(1, ''instructor_state|3''), (2, ''instructor_state|3'')]\<rparr>)
   \<and> ''instructor_state|'' = ''instructor_state|'' @ latest_instructor_state bob_gone
   \<and> \<not> is_instructor (conns bob_gone 1) \<and> is_closed (conns bob_gone 1)
   \<and> on_message (\<lambda>_. None) (\<lambda>_. []) bob_gone 1 ''sync_to_instructor'' =
       (Raise StreamClosedError, bob_gone)
   \<and> is_instructor (conns bob_gone 0) \<and> \<not> all_open bob_gone (participants bob_gone)
   \<and> on_message (\<lambda>_. None) (\<lambda>_. []) bob_gone 0 ''sync_to_instructor'' =
       (Raise StreamClosedError, bob_gone)"
  using sync_to_instructor_asymmetric [where st = lecture_room and c = 1
      and message = "''sync_to_instructor''" and payload = "[]"
      and msg = "''instructor_state|3''" and loads = "\<lambda>_. None" and dumps = "\<lambda>_. []"]
    sync_to_instructor_asymmetric [where st = lecture_room and c = 0
      and message = "''sync_to_instructor''" and payload = "[]"
      and msg = "''instructor_state|3''" and loads = "\<lambda>_. None" and dumps = "\<lambda>_. []"]
    sync_to_instructor_asymmetric [where st = bob_gone and c = 1
      and message = "''sync_to_instructor''" and payload = "[]"
      and msg = "''instructor_state|''" and loads = "\<lambda>_. None" and dumps = "\<lambda>_. []"]
    sync_to_instructor_asymmetric [where st = bob_gone and c = 0
      and message = "''sync_to_instructor''" and payload = "[]"
      and msg = "''instructor_state|''" and loads = "\<lambda>_. None" and dumps = "\<lambda>_. []"]
  by (simp add: lecture_room_def bob_gone_eq ann_bob_cy_eq all_open_def participants_def
      deliveries_def new_conn_def)

text \<open>
  Against C8 as stated: in the same room, Ann's \<^verbatim>\<open>sync_to_instructor\<close> raises at Bob, the
  first client that is not the instructor, and leaves the state as it was: Cy, who is
  registered, is not the instructor and has an open transport, is written nothing.
\<close>

theorem sync_skips_open_participant:
  "session bob_drops
   \<and> is_instructor (conns bob_drops 0)
   \<and> ''Cy'' \<in> fst ` set (clients bob_drops)
   \<and> \<not> is_instructor (conns bob_drops 2)
   \<and> \<not> is_closed (conns bob_drops 2)
   \<and> on_message (\<lambda>_. None) (\<lambda>_. []) bob_drops 0 ''sync_to_instructor'' =
       (Raise StreamClosedError, bob_drops)"
  using session_bob_drops
  by (simp add: bob_drops_eq ann_bob_cy_eq on_message_def py_index_def getattr_def
      handle_sync_to_instructor_def get_instructor_state_def broadcast_reveal_state_def
      write_participants_eq write_all_eq all_open_def deliveries_def new_conn_def)

section \<open>A write that fails (C9)\<close>

text \<open>
  Claim C9: a write that fails because the peer's connection is already closed is caught
  where it is sent and turned into the clean-up of that client (removed from the
  registry, handle released, roster broadcast); the failure never reaches the caller or
  other clients.

  As the code has it: no send is guarded (the file imports \<^verbatim>\<open>StreamClosedError\<close> and never
  names it again). When a broadcast reaches the first registered client whose transport
  is closed, the exception leaves \<^verbatim>\<open>broadcast_nicklist\<close>,
  \<^verbatim>\<open>broadcast_start_presentation\<close> and \<^verbatim>\<open>broadcast_finish_presentation\<close> for their
  caller: the clients before it in the registry have been written to, that client and
  the clients after it have not, the registry still holds every client, and the
  assignments after the loop (\<^verbatim>\<open>_presentation_started\<close>, the two flags) are not made.
  A single send to that client, \<^verbatim>\<open>send_start_presentation\<close>, raises with no effect.
\<close>

theorem failed_write_propagates:
  assumes "clients st = pre @ (n, cl) # post"
    and "all_open st pre"
    and "is_closed (conns st (connection cl))"
  shows "broadcast_nicklist st =
           (Raise StreamClosedError, st\<lparr>sent := sent st @ deliveries pre (nicklist_msg st)\<rparr>)
       \<and> broadcast_start_presentation dumps st =
           (Raise StreamClosedError,
            st\<lparr>sent := sent st @ deliveries pre (generate_start_presentation_msg dumps st)\<rparr>)
       \<and> broadcast_finish_presentation st =
           (Raise StreamClosedError,
            st\<lparr>sent := sent st @ deliveries pre ''finish_presentation''\<rparr>)
       \<and> send_start_presentation dumps st (connection cl) = (Raise StreamClosedError, st)"
  using write_all_first_closed [OF assms(2,3)] assms(3)
  by (simp add: broadcast_nicklist_def broadcast_start_presentation_def
      broadcast_finish_presentation_def send_start_presentation_def write_message_def assms(1))

theorem failed_write_propagates_witness:
  "clients bob_gone =
       [(''Ann'', \<lparr>nick = ''Ann'', connection = 0, instructor = True\<rparr>)]
       @ (''Bob'', \<lparr>nick = ''Bob'', connection = 1, instructor = False\<rparr>)
       # [(''Cy'', \<lparr>nick = ''Cy'', connection = 2, instructor = False\<rparr>)]
   \<and> all_open bob_gone [(''Ann'', \<lparr>nick = ''Ann'', connection = 0, instructor = True\<rparr>)]
   \<and> is_closed (conns bob_gone 1)
   \<and> broadcast_nicklist bob_gone =
       (Raise StreamClosedError,
        bob_gone\<lparr>sent := sent bob_gone @
          [(0, ''nicklist|<ul><li>Ann</li><li>Bob</li><li>Cy</li></ul>'')]\<rparr>)
   \<and> broadcast_start_presentation (\<lambda>_. ''{}'') bob_gone =
       (Raise StreamClosedError,
        bob_gone\<lparr>sent := sent bob_gone @ [(0, ''load_presentation|{}'')]\<rparr>)
   \<and> broadcast_finish_presentation bob_gone =
       (Raise StreamClosedError,
        bob_gone\<lparr>sent := sent bob_gone @ [(0, ''finish_presentation'')]\<rparr>)
   \<and> send_start_presentation (\<lambda>_. ''{}'') bob_gone 1 = (Raise StreamClosedError, bob_gone)"
  using failed_write_propagates [where st = bob_gone
      and pre = "[(''Ann'', \<lparr>nick = ''Ann'', connection = 0, instructor = True\<rparr>)]"
      and n = "''Bob''" and cl = "\<lparr>nick = ''Bob'', connection = 1, instructor = False\<rparr>"
      and post = "[(''Cy'', \<lparr>nick = ''Cy'', connection = 2, instructor = False\<rparr>)]"
      and dumps = "\<lambda>_. ''{}''"]
  by (simp add: bob_gone_eq ann_bob_cy_eq all_open_def deliveries_def nicklist_msg_def
      generate_start_presentation_msg_def new_conn_def)

text \<open>
  Against C9 as stated: Bob's transport has closed. The roster broadcast raises to its
  caller, Bob is still registered afterwards, and Cy, whose transport is open, has been
  sent nothing: the only write is the one to Ann.
\<close>

theorem failed_write_not_cleaned_up:
  "reachable bob_gone
   \<and> fst (broadcast_nicklist bob_gone) = Raise StreamClosedError
   \<and> ''Bob'' \<in> fst ` set (clients (snd (broadcast_nicklist bob_gone)))
   \<and> \<not> is_closed (conns bob_gone 2)
   \<and> sent (snd (broadcast_nicklist bob_gone)) =
       sent bob_gone @ [(0, ''nicklist|<ul><li>Ann</li><li>Bob</li><li>Cy</li></ul>'')]"
  using reachable_bob_gone
  by (simp add: bob_gone_eq ann_bob_cy_eq broadcast_nicklist_def write_all_eq all_open_def
      deliveries_def nicklist_msg_def new_conn_def)

section \<open>slide_changed without a payload (C10)\<close>

text \<open>
  Claim C10: for a \<^verbatim>\<open>slide_changed\<close> message with no payload field, the read of
  \<^verbatim>\<open>msg_parts[1]\<close> is out of bounds, and it comes before the sender's role is looked at.
  The message splits into the single part \<^verbatim>\<open>slide_changed\<close>, index 1 is out of range, and
  the dispatcher raises \<^verbatim>\<open>IndexError\<close> for every sender, instructor or not, leaving the
  state as it was.
\<close>

theorem slide_changed_without_payload_raises:
  "py_split CHR ''|'' ''slide_changed'' = [''slide_changed'']
   \<and> py_index [''slide_changed''] 1 = None
   \<and> handle_slide_changed st c [''slide_changed''] = (Raise IndexError, st)
   \<and> on_message loads dumps st c ''slide_changed'' = (Raise IndexError, st)"
  by (simp add: on_message_def py_index_def getattr_def handle_slide_changed_def)

end
